theory Spec2Isabelle
  imports Complex_Main "HOL-Library.Word"
begin

section \<open>ASCII Studio: the frame pipeline of \<open>src/App.tsx\<close>\<close>

text \<open>
  The component \<open>App\<close> (the first module of \<open>src/App.tsx\<close>) keeps its working state in
  React refs and mutates it from event handlers, effects and the continuations of
  awaited calls to the conversion service. The embedding below is explicit state
  passing: one record \<open>app\<close> for the refs and the React state, one function per source
  function, an asynchronous function cut at its \<open>await\<close> into the part that runs at the
  call and the parts that run when the awaited call resolves or rejects, and a step
  function over the events of the single-threaded event loop.
\<close>

subsection \<open>JavaScript numbers\<close>

text \<open>
  The numbers of the program are integers (lengths, counts, frame indices) and the
  quotients and products formed from them. \<open>number\<close> models a JavaScript number as an
  exact rational or one of the three special values. Integer-valued results are exact
  in the program as well (all magnitudes are far below \<open>2^53\<close>); the rounding of a
  quotient that is not representable in binary is not modelled, and negative zero is
  identified with zero (no operation below tells them apart).
\<close>

datatype number = Fin rat | PosInf | NegInf | NaN

definition js_div :: "int \<Rightarrow> int \<Rightarrow> number" where
  \<comment> \<open>\<open>a / b\<close> on two integers\<close>
  "js_div a b =
     (if b = 0 then (if a = 0 then NaN else if 0 < a then PosInf else NegInf)
      else Fin (of_int a / of_int b))"

fun js_mul :: "int \<Rightarrow> number \<Rightarrow> number" where
  \<comment> \<open>\<open>i * x\<close> for an integer \<open>i\<close>\<close>
  "js_mul i (Fin q) = Fin (of_int i * q)"
| "js_mul i PosInf = (if i = 0 then NaN else if 0 < i then PosInf else NegInf)"
| "js_mul i NegInf = (if i = 0 then NaN else if 0 < i then NegInf else PosInf)"
| "js_mul i NaN = NaN"

fun js_add :: "number \<Rightarrow> number \<Rightarrow> number" where
  "js_add (Fin a) (Fin b) = Fin (a + b)"
| "js_add NaN y = NaN"
| "js_add x NaN = NaN"
| "js_add PosInf NegInf = NaN"
| "js_add NegInf PosInf = NaN"
| "js_add PosInf y = PosInf"
| "js_add NegInf y = NegInf"
| "js_add (Fin a) y = y"

fun js_min :: "number \<Rightarrow> number \<Rightarrow> number" where
  \<comment> \<open>\<open>Math.min\<close> of two numbers\<close>
  "js_min NaN y = NaN"
| "js_min x NaN = NaN"
| "js_min NegInf y = NegInf"
| "js_min x NegInf = NegInf"
| "js_min PosInf y = y"
| "js_min x PosInf = x"
| "js_min (Fin a) (Fin b) = Fin (min a b)"

definition js_rem :: "int \<Rightarrow> int \<Rightarrow> int" where
  \<comment> \<open>\<open>a % b\<close> on integers, \<open>b \<noteq> 0\<close>: the result takes the sign of the dividend\<close>
  "js_rem a b = sgn a * (\<bar>a\<bar> mod \<bar>b\<bar>)"

definition trunc :: "rat \<Rightarrow> int" where
  \<comment> \<open>rounding towards zero\<close>
  "trunc q = (if 0 \<le> q then \<lfloor>q\<rfloor> else \<lceil>q\<rceil>)"

subsection \<open>Typed arrays\<close>

type_synonym byte = "8 word"

fun relative_index :: "nat \<Rightarrow> number \<Rightarrow> nat" where
  \<comment> \<open>how \<open>subarray\<close> reads one bound against a source of length \<open>n\<close>: the bound is
      truncated to an integer (NaN reads as 0), a negative bound counts from the end,
      and the result is clamped to \<open>[0, n]\<close>\<close>
  "relative_index n NaN = 0"
| "relative_index n PosInf = n"
| "relative_index n NegInf = 0"
| "relative_index n (Fin q) =
     (let r = trunc q
      in if r < 0 then nat (max (int n + r) 0) else nat (min r (int n)))"

definition subarray :: "'a list \<Rightarrow> number \<Rightarrow> number \<Rightarrow> 'a list" where
  \<comment> \<open>\<open>buffer.subarray(begin, end)\<close>; the new length is \<open>max (endIndex - beginIndex) 0\<close>\<close>
  "subarray buffer b e =
     (let beginIndex = relative_index (length buffer) b;
          endIndex = relative_index (length buffer) e
      in take (endIndex - beginIndex) (drop beginIndex buffer))"

subsection \<open>The state of the component\<close>

record params =
  width :: int
  brightness :: int
  contrast :: rat

datatype css_transform =
    Unset             \<comment> \<open>no inline transform (the empty string)\<close>
  | TNone             \<comment> \<open>\<open>"none"\<close>\<close>
  | Centered number   \<comment> \<open>\<open>translate(-50%, -50%) scale(x)\<close>\<close>

record surface =
  transform :: css_transform
  textContent :: string

record viewport =
  clientWidth :: int
  clientHeight :: int

text \<open>
  What the component uses of the platform: the text decoder and the layout
  measurements of the \<open>pre\<close> element. They are parameters of the model.
\<close>

record platform =
  decode :: "byte list \<Rightarrow> string"
  scrollWidth :: "surface \<Rightarrow> int"
  scrollHeight :: "surface \<Rightarrow> int"

type_synonym convert_request = "params \<times> int option"
  \<comment> \<open>the arguments of one \<open>convert_gif_to_ascii\<close> call: the parameters and \<open>onlyFrame\<close>\<close>

type_synonym preview_request = "int \<times> rat \<times> int"
  \<comment> \<open>the arguments of one \<open>apply_adjustments_to_preview\<close> call:
      brightness, contrast, frame index\<close>

record app =
  gifLoaded :: bool
  adjustedPreviewUrl :: string
  state_params :: params          \<comment> \<open>the React state \<open>width\<close>, \<open>brightness\<close>, \<open>contrast\<close>\<close>
  loading :: bool
  error :: string
  viewportRef :: "viewport option"
  asciiRef :: "surface option"
  isUpdating :: bool
  pendingUpdate :: bool
  paramsRef :: params
  asciiBuffer :: "byte list option"
  meta_count :: nat               \<comment> \<open>\<open>frameMetadata.current.count\<close>\<close>
  meta_size :: number             \<comment> \<open>\<open>frameMetadata.current.size\<close>\<close>
  meta_rawW :: int
  meta_rawH :: int
  animating :: bool               \<comment> \<open>the animation-frame loop has been started\<close>
  lastFrameTime :: rat
  currentFrameIdx :: int
  isInteractive :: bool
  debounceTimer :: "nat option"   \<comment> \<open>the id of the last timer set, if any\<close>
  timers :: "(nat \<times> bool) list"
    \<comment> \<open>the timers that are armed: the id, and the value of \<open>gifLoaded\<close> in the closure
        of the \<open>convert\<close> that the callback calls\<close>
  nextTimerId :: nat
  convertPending :: "convert_request list"
    \<comment> \<open>the conversion calls that have been issued and not yet answered\<close>
  convertLog :: "convert_request list"
    \<comment> \<open>every conversion call issued so far, oldest first\<close>
  previewPending :: "preview_request list"
  console :: "string list"

subsection \<open>Core operations\<close>

definition calculateAndApplyScale :: "app \<Rightarrow> app" where
  "calculateAndApplyScale s =
     (case asciiRef s of None \<Rightarrow> s | Some el \<Rightarrow>
      (case viewportRef s of None \<Rightarrow> s | Some vp \<Rightarrow>
       if meta_rawW s = 0 then s
       else
         let margin = 40;
             scale = js_min (js_div (clientWidth vp - margin) (meta_rawW s))
                            (js_div (clientHeight vp - margin) (meta_rawH s))
         in s\<lparr>asciiRef := Some (el\<lparr>transform := Centered scale\<rparr>)\<rparr>))"

definition updatePreview :: "int \<Rightarrow> app \<Rightarrow> app" where
  \<comment> \<open>up to the \<open>await\<close>: the call is issued with the brightness and contrast of
      \<open>paramsRef\<close>\<close>
  "updatePreview frameIdx s =
     (if \<not> gifLoaded s then s
      else s\<lparr>previewPending := previewPending s @
               [(brightness (paramsRef s), contrast (paramsRef s), frameIdx)]\<rparr>)"

definition updatePreview_resolved :: "nat \<Rightarrow> string \<Rightarrow> app \<Rightarrow> app" where
  \<comment> \<open>the \<open>k\<close>-th pending preview call resolves with \<open>b64\<close>\<close>
  "updatePreview_resolved k b64 s =
     (if k < length (previewPending s)
      then s\<lparr>previewPending := take k (previewPending s) @ drop (Suc k) (previewPending s),
             adjustedPreviewUrl := b64\<rparr>
      else s)"

definition updatePreview_rejected :: "nat \<Rightarrow> string \<Rightarrow> app \<Rightarrow> app" where
  \<comment> \<open>the \<open>k\<close>-th pending preview call rejects with \<open>e\<close>: \<open>console.error\<close> only\<close>
  "updatePreview_rejected k e s =
     (if k < length (previewPending s)
      then s\<lparr>previewPending := take k (previewPending s) @ drop (Suc k) (previewPending s),
             console := console s @ [''Preview error: '' @ e]\<rparr>
      else s)"

definition frameBounds :: "nat \<Rightarrow> number \<Rightarrow> 'a list \<Rightarrow> int \<Rightarrow> int \<times> number \<times> number" where
  \<comment> \<open>\<open>renderFrame\<close>, the computation of \<open>safeIdx\<close>, \<open>start\<close> and \<open>end\<close>\<close>
  "frameBounds count sz buffer idx =
     (let safeIdx = js_rem idx (int count);
          isSingleFrameBuffer = (Fin (of_nat (length buffer)) = sz);
          start = (if isSingleFrameBuffer then Fin 0 else js_mul safeIdx sz);
          end = js_add start sz
      in (safeIdx, start, end))"

definition frameSlice :: "nat \<Rightarrow> number \<Rightarrow> 'a list \<Rightarrow> int \<Rightarrow> 'a list" where
  \<comment> \<open>\<open>renderFrame\<close>, the slice that is decoded and shown\<close>
  "frameSlice count sz buffer idx =
     (case frameBounds count sz buffer idx of
        (safeIdx, start, end) \<Rightarrow> subarray buffer start end)"

definition renderFrame :: "platform \<Rightarrow> int \<Rightarrow> byte list option \<Rightarrow> app \<Rightarrow> app" where
  "renderFrame P idx bufferOverride s =
     (case (case bufferOverride of Some b \<Rightarrow> Some b | None \<Rightarrow> asciiBuffer s) of
        None \<Rightarrow> s
      | Some buffer \<Rightarrow>
         (case asciiRef s of
            None \<Rightarrow> s
          | Some el \<Rightarrow>
             if meta_count s = 0 then s
             else
               let safeIdx = fst (frameBounds (meta_count s) (meta_size s) buffer idx);
                   slice = frameSlice (meta_count s) (meta_size s) buffer idx;
                   s1 = s\<lparr>asciiRef := Some (el\<lparr>textContent := decode P slice\<rparr>)\<rparr>;
                   s2 = s1\<lparr>currentFrameIdx := safeIdx\<rparr>
               in updatePreview safeIdx (calculateAndApplyScale s2)))"

subsection \<open>The conversion loop\<close>

text \<open>
  \<open>convert\<close> is an asynchronous function whose body is a \<open>while (true)\<close> loop with one
  \<open>await\<close> per iteration. It is cut at the \<open>await\<close>: \<open>convert\<close> is the part that runs
  at the call, \<open>convert_issue\<close> the head of one iteration (which ends by issuing the
  call to the service), \<open>convert_resolved\<close> the rest of the iteration once the awaited
  call has resolved, followed by the head of the next iteration or by the \<open>finally\<close>
  block, and \<open>convert_rejected\<close> the \<open>catch\<close> and \<open>finally\<close> blocks.

  The argument \<open>loaded\<close> of \<open>convert\<close> is the value of \<open>gifLoaded\<close> in the closure of the
  function object that is called.
\<close>

definition convert_issue :: "int option \<Rightarrow> app \<Rightarrow> app" where
  "convert_issue onlyFrame s =
     (let s1 = s\<lparr>pendingUpdate := False\<rparr>;
          req = (paramsRef s1, onlyFrame)
      in s1\<lparr>convertPending := convertPending s1 @ [req],
            convertLog := convertLog s1 @ [req]\<rparr>)"

definition convert :: "bool \<Rightarrow> int option \<Rightarrow> app \<Rightarrow> app" where
  "convert loaded onlyFrame s =
     (if \<not> loaded then s
      else if isUpdating s then s\<lparr>pendingUpdate := True\<rparr>
      else convert_issue onlyFrame (s\<lparr>isUpdating := True\<rparr>))"

definition measureGlyphs :: "platform \<Rightarrow> int option \<Rightarrow> byte list \<Rightarrow> app \<Rightarrow> app" where
  \<comment> \<open>the measurement of the character grid inside \<open>convert\<close>\<close>
  "measureGlyphs P onlyFrame data s =
     (case asciiRef s of
        None \<Rightarrow> s
      | Some el \<Rightarrow>
          let originalTransform = transform el;
              originalText = textContent el;
              el1 = el\<lparr>transform := TNone\<rparr>;
              el2 = el1\<lparr>textContent := decode P
                      (subarray data (Fin 0)
                         (js_div (int (length data))
                            (if onlyFrame \<noteq> None then 1 else int (meta_count s))))\<rparr>;
              s1 = s\<lparr>meta_rawW := scrollWidth P el2\<rparr>;
              s2 = s1\<lparr>meta_rawH := scrollHeight P el2\<rparr>;
              el3 = el2\<lparr>transform := originalTransform\<rparr>;
              el4 = el3\<lparr>textContent := originalText\<rparr>
          in s2\<lparr>asciiRef := Some el4\<rparr>)"

definition convert_apply :: "platform \<Rightarrow> int option \<Rightarrow> byte list \<Rightarrow> app \<Rightarrow> app" where
  \<comment> \<open>what one iteration does with the response data\<close>
  "convert_apply P onlyFrame data s =
     (if length data > 0 then
        let s1 = measureGlyphs P onlyFrame data s
        in (case onlyFrame of
              Some f \<Rightarrow>
                renderFrame P f (Some data) (s1\<lparr>meta_size := Fin (of_nat (length data))\<rparr>)
            | None \<Rightarrow>
                let s2 = s1\<lparr>asciiBuffer := Some data\<rparr>;
                    s3 = s2\<lparr>meta_size := js_div (int (length data)) (int (meta_count s2))\<rparr>
                in renderFrame P (currentFrameIdx s3) None s3)
      else s)"

definition convert_resolved :: "platform \<Rightarrow> byte list \<Rightarrow> app \<Rightarrow> app" where
  \<comment> \<open>the oldest pending conversion call resolves with \<open>[_, data]\<close>\<close>
  "convert_resolved P data s =
     (case convertPending s of
        [] \<Rightarrow> s
      | req # rest \<Rightarrow>
          let onlyFrame = snd req;
              s1 = convert_apply P onlyFrame data (s\<lparr>convertPending := rest\<rparr>)
          in if \<not> pendingUpdate s1 then s1\<lparr>isUpdating := False\<rparr>
             else convert_issue onlyFrame s1)"

definition convert_rejected :: "string \<Rightarrow> app \<Rightarrow> app" where
  \<comment> \<open>the oldest pending conversion call rejects; \<open>e\<close> is \<open>String(e)\<close>\<close>
  "convert_rejected e s =
     (case convertPending s of
        [] \<Rightarrow> s
      | req # rest \<Rightarrow>
          let s1 = s\<lparr>convertPending := rest\<rparr>;
              s2 = s1\<lparr>error := e\<rparr>
          in s2\<lparr>isUpdating := False\<rparr>)"

subsection \<open>Event handlers and effects\<close>

definition handleOpen_selected :: "app \<Rightarrow> app" where
  \<comment> \<open>\<open>handleOpen\<close> from the selection of a path up to the awaited \<open>load_gif\<close>\<close>
  "handleOpen_selected s = s\<lparr>loading := True, error := ''''\<rparr>"

definition handleOpen_resolved :: "nat \<Rightarrow> app \<Rightarrow> app" where
  \<comment> \<open>\<open>load_gif\<close> resolves with the frame count. When \<open>gifLoaded\<close> changes, the effects
      that depend on it run: the bulk conversion and the start of the animation loop.\<close>
  "handleOpen_resolved n s =
     (let s1 = s\<lparr>meta_count := n\<rparr>;
          s2 = s1\<lparr>gifLoaded := True, loading := False\<rparr>
      in if gifLoaded s then s2
         else (convert True None s2)\<lparr>animating := (1 < n)\<rparr>)"

definition handleOpen_rejected :: "string \<Rightarrow> app \<Rightarrow> app" where
  "handleOpen_rejected e s = s\<lparr>error := e, loading := False\<rparr>"

definition clearTimeout :: "nat \<Rightarrow> app \<Rightarrow> app" where
  "clearTimeout t s = s\<lparr>timers := filter (\<lambda>x. fst x \<noteq> t) (timers s)\<rparr>"

definition handleParamChange :: "params \<Rightarrow> app \<Rightarrow> app" where
  \<comment> \<open>\<open>p\<close> is the parameter state that the updater sets\<close>
  "handleParamChange p s =
     (let s1 = s\<lparr>isInteractive := True\<rparr>;
          s2 = s1\<lparr>state_params := p\<rparr>;
          s3 = convert (gifLoaded s) (Some (currentFrameIdx s2)) s2;
          s4 = (case debounceTimer s3 of Some t \<Rightarrow> clearTimeout t s3 | None \<Rightarrow> s3);
          t = nextTimerId s4
      in s4\<lparr>timers := timers s4 @ [(t, gifLoaded s)],
            nextTimerId := Suc t,
            debounceTimer := Some t\<rparr>)"

definition timer_fired :: "nat \<Rightarrow> app \<Rightarrow> app" where
  \<comment> \<open>the callback of the armed timer \<open>t\<close> runs\<close>
  "timer_fired t s =
     (case map_of (timers s) t of
        None \<Rightarrow> s
      | Some loaded \<Rightarrow>
          let s1 = clearTimeout t s;
              s2 = s1\<lparr>isInteractive := False\<rparr>
          in convert loaded None s2)"

definition params_effect :: "app \<Rightarrow> app" where
  \<comment> \<open>the effect that copies the parameter state into \<open>paramsRef\<close> after a render\<close>
  "params_effect s = s\<lparr>paramsRef := state_params s\<rparr>"

definition animate :: "platform \<Rightarrow> rat \<Rightarrow> app \<Rightarrow> app" where
  "animate P time s =
     (if \<not> isInteractive s \<and> time - lastFrameTime s > 100
      then let s1 = s\<lparr>lastFrameTime := time\<rparr>
           in renderFrame P (currentFrameIdx s1 + 1) None s1
      else s)"

definition resized :: "int \<Rightarrow> int \<Rightarrow> app \<Rightarrow> app" where
  \<comment> \<open>the viewport takes a new size and the resize observer fires\<close>
  "resized w h s =
     calculateAndApplyScale
       (s\<lparr>viewportRef := map_option (\<lambda>vp. vp\<lparr>clientWidth := w, clientHeight := h\<rparr>)
                            (viewportRef s)\<rparr>)"

subsection \<open>The event loop\<close>

datatype event =
    OpenSelected
  | LoadResolved nat
  | LoadRejected string
  | Edit params
  | Commit
  | TimerFired nat
  | ConvertResolved nat "byte list"
  | ConvertRejected string
  | PreviewResolved nat string
  | PreviewRejected nat string
  | Tick rat
  | Resized int int

text \<open>
  An event that cannot happen in a state leaves it unchanged: the import button is
  disabled while a source is loading, \<open>load_gif\<close> answers only while it is awaited, and
  the animation callback runs only once the loop has been started. The first component
  of a conversion response (the frame count echoed by the service) is not read.
\<close>

fun step :: "platform \<Rightarrow> event \<Rightarrow> app \<Rightarrow> app" where
  "step P OpenSelected s = (if loading s then s else handleOpen_selected s)"
| "step P (LoadResolved n) s = (if loading s then handleOpen_resolved n s else s)"
| "step P (LoadRejected e) s = (if loading s then handleOpen_rejected e s else s)"
| "step P (Edit p) s = handleParamChange p s"
| "step P Commit s = params_effect s"
| "step P (TimerFired t) s = timer_fired t s"
| "step P (ConvertResolved echo data) s = convert_resolved P data s"
| "step P (ConvertRejected e) s = convert_rejected e s"
| "step P (PreviewResolved k b64) s = updatePreview_resolved k b64 s"
| "step P (PreviewRejected k e) s = updatePreview_rejected k e s"
| "step P (Tick time) s = (if animating s then animate P time s else s)"
| "step P (Resized w h) s = resized w h s"

fun run :: "platform \<Rightarrow> event list \<Rightarrow> app \<Rightarrow> app" where
  "run P [] s = s"
| "run P (e # es) s = run P es (step P e s)"

definition init :: "viewport \<Rightarrow> app" where
  \<comment> \<open>the state after the first render, in a viewport \<open>vp\<close>\<close>
  "init vp =
     \<lparr>gifLoaded = False, adjustedPreviewUrl = '''',
      state_params = \<lparr>width = 100, brightness = 0, contrast = 1\<rparr>,
      loading = False, error = '''',
      viewportRef = Some vp,
      asciiRef = Some \<lparr>transform = Unset, textContent = ''''\<rparr>,
      isUpdating = False, pendingUpdate = False,
      paramsRef = \<lparr>width = 100, brightness = 0, contrast = 1\<rparr>,
      asciiBuffer = None,
      meta_count = 0, meta_size = Fin 0, meta_rawW = 0, meta_rawH = 0,
      animating = False, lastFrameTime = 0, currentFrameIdx = 0,
      isInteractive = False,
      debounceTimer = None, timers = [], nextTimerId = 1,
      convertPending = [], convertLog = [],
      previewPending = [], console = []\<rparr>"

subsection \<open>Sample inputs\<close>

text \<open>
  A platform and a few inputs at which the theorems below are instantiated: the decoder
  reads one character per byte, and the measured width of the surface is the length of
  its text.
\<close>

definition sample_platform :: platform where
  "sample_platform =
     \<lparr>decode = map (\<lambda>b. char_of (unat b)),
      scrollWidth = (\<lambda>el. int (length (textContent el))),
      scrollHeight = (\<lambda>el. 1)\<rparr>"

definition sample_viewport :: viewport where
  "sample_viewport = \<lparr>clientWidth = 840, clientHeight = 640\<rparr>"

definition sample_bytes :: "nat \<Rightarrow> byte list" where
  \<comment> \<open>the bytes \<open>0, 1, \<dots>, n - 1\<close>\<close>
  "sample_bytes n = map of_nat [0..<n]"

definition sample_params :: "int \<Rightarrow> params" where
  "sample_params b = \<lparr>width = 100, brightness = b, contrast = 1\<rparr>"

definition loaded_state :: "nat \<Rightarrow> app" where
  \<comment> \<open>a source of \<open>n\<close> frames has been loaded; the first bulk conversion is in flight\<close>
  "loaded_state n = run sample_platform [OpenSelected, LoadResolved n] (init sample_viewport)"

definition playing_state :: app where
  \<comment> \<open>two frames of ten bytes each have been installed\<close>
  "playing_state = step sample_platform (ConvertResolved 2 (sample_bytes 20)) (loaded_state 2)"

definition editing_state :: app where
  \<comment> \<open>the user has moved the brightness slider in \<open>playing_state\<close>\<close>
  "editing_state = step sample_platform (Edit (sample_params 10)) playing_state"

definition wide_params :: "int \<Rightarrow> params" where
  "wide_params w = \<lparr>width = w, brightness = 0, contrast = 1\<rparr>"

definition five_frames_state :: app where
  \<comment> \<open>five frames of ten bytes each have been installed\<close>
  "five_frames_state =
     step sample_platform (ConvertResolved 5 (sample_bytes 50)) (loaded_state 5)"

definition preview_race_state :: app where
  \<comment> \<open>two brightness edits, each answered by a single-frame conversion; the three
      preview calls issued so far are all pending\<close>
  "preview_race_state =
     run sample_platform
       [Edit (sample_params 10), Commit, ConvertResolved 2 (sample_bytes 10),
        Edit (sample_params 20), Commit, ConvertResolved 2 (sample_bytes 10)]
       playing_state"

definition stale_size_state :: app where
  \<comment> \<open>two width edits; the single-frame conversion for the new width has answered with
      a frame of 30 bytes, the debounce timer has fired, and the bulk conversion for the
      new width is in flight\<close>
  "stale_size_state =
     run sample_platform
       [Edit (wide_params 150), Commit, Edit (wide_params 160), Commit,
        ConvertResolved 2 (sample_bytes 10), ConvertResolved 2 (sample_bytes 30),
        TimerFired 2]
       playing_state"



definition converting_edit_state :: app where
  \<comment> \<open>one edit; its single-frame conversion is pending and the debounce timer is armed\<close>
  "converting_edit_state =
     run sample_platform
       [OpenSelected, LoadResolved 2, ConvertResolved 2 (sample_bytes 20),
        Edit (sample_params 10), Commit]
       (init sample_viewport)"

subsection \<open>Invariant of the coordinator\<close>

fun is_response :: "event \<Rightarrow> bool" where
  \<comment> \<open>the events that answer a conversion call\<close>
  "is_response (ConvertResolved echo data) = True"
| "is_response (ConvertRejected e) = True"
| "is_response e = False"

definition coordinated :: "app \<Rightarrow> bool" where
  \<comment> \<open>the invariant of the request coordinator and of the debounce timer\<close>
  "coordinated s =
     (length (convertPending s) \<le> 1 \<and>
      (isUpdating s = (convertPending s \<noteq> [])) \<and>
      (isUpdating s \<longrightarrow> gifLoaded s) \<and>
      length (timers s) \<le> 1 \<and>
      (\<forall>x \<in> set (timers s). debounceTimer s = Some (fst x) \<and> (snd x \<longrightarrow> gifLoaded s)))"

definition nonneg_indices :: "app \<Rightarrow> bool" where
  \<comment> \<open>the frame indices that \<open>renderFrame\<close> is called with are taken from
      \<open>currentFrameIdx\<close> and from the \<open>onlyFrame\<close> of the pending call\<close>
  "nonneg_indices s =
     (0 \<le> currentFrameIdx s \<and>
      (\<forall>r \<in> set (convertPending s). \<forall>f. snd r = Some f \<longrightarrow> 0 \<le> f))"

section \<open>Properties\<close>

subsection \<open>What each operation leaves unchanged\<close>

lemma updatePreview_fields [simp]:
  "gifLoaded (updatePreview i s) = gifLoaded s"
  "isUpdating (updatePreview i s) = isUpdating s"
  "pendingUpdate (updatePreview i s) = pendingUpdate s"
  "paramsRef (updatePreview i s) = paramsRef s"
  "state_params (updatePreview i s) = state_params s"
  "convertPending (updatePreview i s) = convertPending s"
  "convertLog (updatePreview i s) = convertLog s"
  "error (updatePreview i s) = error s"
  "asciiBuffer (updatePreview i s) = asciiBuffer s"
  "asciiRef (updatePreview i s) = asciiRef s"
  "meta_count (updatePreview i s) = meta_count s"
  "meta_size (updatePreview i s) = meta_size s"
  "timers (updatePreview i s) = timers s"
  "debounceTimer (updatePreview i s) = debounceTimer s"
  "nextTimerId (updatePreview i s) = nextTimerId s"
  "isInteractive (updatePreview i s) = isInteractive s"
  "currentFrameIdx (updatePreview i s) = currentFrameIdx s"
  "animating (updatePreview i s) = animating s"
  "loading (updatePreview i s) = loading s"
  by (simp_all add: updatePreview_def)

lemma calculateAndApplyScale_fields [simp]:
  "gifLoaded (calculateAndApplyScale s) = gifLoaded s"
  "isUpdating (calculateAndApplyScale s) = isUpdating s"
  "pendingUpdate (calculateAndApplyScale s) = pendingUpdate s"
  "paramsRef (calculateAndApplyScale s) = paramsRef s"
  "state_params (calculateAndApplyScale s) = state_params s"
  "convertPending (calculateAndApplyScale s) = convertPending s"
  "convertLog (calculateAndApplyScale s) = convertLog s"
  "error (calculateAndApplyScale s) = error s"
  "asciiBuffer (calculateAndApplyScale s) = asciiBuffer s"
  "meta_count (calculateAndApplyScale s) = meta_count s"
  "meta_size (calculateAndApplyScale s) = meta_size s"
  "timers (calculateAndApplyScale s) = timers s"
  "debounceTimer (calculateAndApplyScale s) = debounceTimer s"
  "nextTimerId (calculateAndApplyScale s) = nextTimerId s"
  "isInteractive (calculateAndApplyScale s) = isInteractive s"
  "currentFrameIdx (calculateAndApplyScale s) = currentFrameIdx s"
  "animating (calculateAndApplyScale s) = animating s"
  "loading (calculateAndApplyScale s) = loading s"
  "previewPending (calculateAndApplyScale s) = previewPending s"
  by (simp_all add: calculateAndApplyScale_def Let_def split: option.splits)

lemma calculateAndApplyScale_text [simp]:
  "map_option textContent (asciiRef (calculateAndApplyScale s)) =
   map_option textContent (asciiRef s)"
  by (simp add: calculateAndApplyScale_def Let_def split: option.splits)

lemma renderFrame_fields [simp]:
  "gifLoaded (renderFrame P i ov s) = gifLoaded s"
  "isUpdating (renderFrame P i ov s) = isUpdating s"
  "pendingUpdate (renderFrame P i ov s) = pendingUpdate s"
  "paramsRef (renderFrame P i ov s) = paramsRef s"
  "state_params (renderFrame P i ov s) = state_params s"
  "convertPending (renderFrame P i ov s) = convertPending s"
  "convertLog (renderFrame P i ov s) = convertLog s"
  "error (renderFrame P i ov s) = error s"
  "asciiBuffer (renderFrame P i ov s) = asciiBuffer s"
  "meta_count (renderFrame P i ov s) = meta_count s"
  "meta_size (renderFrame P i ov s) = meta_size s"
  "timers (renderFrame P i ov s) = timers s"
  "debounceTimer (renderFrame P i ov s) = debounceTimer s"
  "nextTimerId (renderFrame P i ov s) = nextTimerId s"
  "isInteractive (renderFrame P i ov s) = isInteractive s"
  "animating (renderFrame P i ov s) = animating s"
  "loading (renderFrame P i ov s) = loading s"
  by (simp_all add: renderFrame_def Let_def split: option.splits)

lemma measureGlyphs_eq:
  "measureGlyphs P onlyFrame data s =
     (case asciiRef s of
        None \<Rightarrow> s
      | Some el \<Rightarrow>
          let shown = el\<lparr>transform := TNone,
                         textContent := decode P
                           (subarray data (Fin 0)
                              (js_div (int (length data))
                                 (if onlyFrame \<noteq> None then 1 else int (meta_count s))))\<rparr>
          in s\<lparr>meta_rawW := scrollWidth P shown, meta_rawH := scrollHeight P shown\<rparr>)"
  by (cases "asciiRef s") (simp_all add: measureGlyphs_def Let_def)

subsection \<open>The measurement of the character grid\<close>

text \<open>
  Claim C9. The measurement inside a conversion puts one decoded frame on the surface
  with the transform reset, reads the scroll width and height, and puts the previous
  transform and text back: afterwards the surface is what it was before, and the state
  differs from the state before only in the measured dimensions \<open>rawW\<close> and \<open>rawH\<close>.
\<close>

theorem C9_measurement_restores_surface:
  "asciiRef (measureGlyphs P onlyFrame data s) = asciiRef s \<and>
   (\<exists>w h. measureGlyphs P onlyFrame data s = s\<lparr>meta_rawW := w, meta_rawH := h\<rparr>)"
proof (cases "asciiRef s")
  case None
  have "s = s\<lparr>meta_rawW := meta_rawW s, meta_rawH := meta_rawH s\<rparr>" by simp
  with None show ?thesis
    unfolding measureGlyphs_eq by (simp only: option.case) blast
next
  case (Some el)
  then show ?thesis
    unfolding measureGlyphs_eq by (simp add: Let_def) blast
qed

subsection \<open>Rendering without frames\<close>

text \<open>
  Claim C10. For every frame index, \<open>renderFrame\<close> returns at its first check when there
  is no buffer to render (none is passed and none is installed) or when the frame count
  is 0: the remainder by the count and the slice are not computed, and the whole state
  (the rendered content, \<open>currentFrameIdx\<close>, the frame metadata) is unchanged.
\<close>

theorem C10_render_without_frames_is_noop:
  "(bufferOverride = None \<and> asciiBuffer s = None) \<or> meta_count s = 0 \<Longrightarrow>
   renderFrame P idx bufferOverride s = s"
  by (auto simp: renderFrame_def split: option.splits)

theorem C10_render_without_frames_is_noop_witness:
  "asciiBuffer (init sample_viewport) = None \<and>
   renderFrame sample_platform 3 None (init sample_viewport) = init sample_viewport \<and>
   meta_count (init sample_viewport) = 0 \<and>
   renderFrame sample_platform 3 (Some (sample_bytes 4)) (init sample_viewport) =
     init sample_viewport"
  using C10_render_without_frames_is_noop
          [of None "init sample_viewport" sample_platform 3]
        C10_render_without_frames_is_noop
          [of "Some (sample_bytes 4)" "init sample_viewport" sample_platform 3]
  by (simp add: init_def)

subsection \<open>The animation clock while the user edits\<close>

lemma ticks_while_interactive:
  "isInteractive s \<Longrightarrow> run P (map Tick ts) s = s"
  by (induction ts) (simp_all add: animate_def)

lemma editing_state_flags:
  "isInteractive editing_state \<and> animating editing_state \<and>
   currentFrameIdx editing_state = 0"
  by code_simp

text \<open>
  Claim C6. While \<open>isInteractive\<close> is set, the animation callback may run any number of
  times at any times: it changes neither \<open>currentFrameIdx\<close> nor the surface, the loop
  stays started, and the flag stays set until the debounce timer clears it.
\<close>

theorem C6_interactive_clock_keeps_frame:
  "isInteractive s \<Longrightarrow>
   currentFrameIdx (run P (map Tick ts) s) = currentFrameIdx s \<and>
   asciiRef (run P (map Tick ts) s) = asciiRef s \<and>
   animating (run P (map Tick ts) s) = animating s \<and>
   isInteractive (run P (map Tick ts) s)"
  by (simp add: ticks_while_interactive)

theorem C6_interactive_clock_keeps_frame_witness:
  "isInteractive editing_state \<and> animating editing_state \<and>
   currentFrameIdx (run sample_platform (map Tick [150, 1000, 5000]) editing_state) = 0"
  using C6_interactive_clock_keeps_frame
          [of editing_state sample_platform "[150, 1000, 5000]"]
        editing_state_flags
  by simp

subsection \<open>Slices of the frame buffer\<close>

lemma trunc_of_int [simp]: "trunc (of_int k) = k"
  by (simp add: trunc_def)

lemma trunc_of_nat [simp]: "trunc (of_nat k) = int k"
  by (simp add: trunc_def)

lemma trunc_0 [simp]: "trunc 0 = 0"
  by (simp add: trunc_def)

lemma js_rem_nonneg: "0 \<le> i \<Longrightarrow> 0 < c \<Longrightarrow> js_rem i c = i mod c"
  by (cases "i = 0") (simp_all add: js_rem_def)

lemma js_rem_neg: "i < 0 \<Longrightarrow> 0 < c \<Longrightarrow> js_rem i c = - ((- i) mod c)"
  by (simp add: js_rem_def)

lemma subarray_within:
  assumes "b \<le> e" "e \<le> length buffer"
  shows "subarray buffer (Fin (of_nat b)) (Fin (of_nat e)) = take (e - b) (drop b buffer)"
  using assms by (simp add: subarray_def Let_def min_def)

lemma relative_index_from_end:
  assumes "0 < k" "k \<le> n"
  shows "relative_index n (Fin (- of_nat k)) = n - k"
proof -
  have t: "trunc (- of_nat k) = - int k"
    using trunc_of_int [of "- int k"] by simp
  have "nat (max (int n + - int k) 0) = n - k"
    using assms by (simp add: max_def nat_diff_distrib')
  then show ?thesis
    using assms by (simp add: Let_def t del: max.absorb1 max.absorb2 max.absorb3 max.absorb4)
qed

lemma subarray_from_end:
  assumes "0 < b" "e \<le> b" "0 < e" "b \<le> length buffer"
  shows "subarray buffer (Fin (- of_nat b)) (Fin (- of_nat e)) =
           take (b - e) (drop (length buffer - b) buffer)"
proof -
  have "relative_index (length buffer) (Fin (- of_nat b)) = length buffer - b"
    using assms by (intro relative_index_from_end) simp_all
  moreover have "relative_index (length buffer) (Fin (- of_nat e)) = length buffer - e"
    using assms by (intro relative_index_from_end) simp_all
  moreover have "(length buffer - e) - (length buffer - b) = b - e"
    using assms by simp
  ultimately show ?thesis
    by (simp add: subarray_def Let_def)
qed

lemma subarray_frame:
  assumes len: "length buffer = count * n" and r: "r < count"
  shows "subarray buffer (Fin (of_int (int r * int n))) (Fin (of_int (int r * int n + int n)))
         = take n (drop (r * n) buffer)"
proof -
  have "Suc r * n \<le> count * n" using r by (intro mult_le_mono1) simp
  then have le: "r * n + n \<le> length buffer" using len by (simp add: add.commute)
  have b: "(of_int (int r * int n) :: rat) = of_nat (r * n)" by simp
  have e: "(of_int (int r * int n + int n) :: rat) = of_nat (r * n + n)" by simp
  show ?thesis
    unfolding b e using subarray_within [of "r * n" "r * n + n" buffer] le by simp
qed

lemma subarray_frame_from_end:
  assumes len: "length buffer = count * n" and n: "0 < n" and t: "2 \<le> t" "t < count"
  shows "subarray buffer (Fin (of_int (- int t * int n))) (Fin (of_int (- int t * int n + int n)))
         = take n (drop ((count - t) * n) buffer)"
proof -
  obtain u where u: "t = Suc (Suc u)" using t(1) by (metis Suc_le_D numeral_2_eq_2 Suc_le_mono le_0_eq nat.exhaust not_less_eq_eq)
  have b: "(of_int (- int t * int n) :: rat) = - of_nat (t * n)" by simp
  have "- int t * int n + int n = - int (Suc u * n)" unfolding u by (simp add: algebra_simps)
  then have e: "(of_int (- int t * int n + int n) :: rat) = - of_nat (Suc u * n)"
    by (simp only: of_int_minus of_int_of_nat_eq)
  have tn: "t * n \<le> length buffer" unfolding len using t by (intro mult_le_mono1) simp
  have diff: "t * n - Suc u * n = n" unfolding u by simp
  have "(count - t) * n = length buffer - t * n"
    unfolding len by (simp add: diff_mult_distrib)
  moreover have "0 < t * n" "Suc u * n \<le> t * n" "0 < Suc u * n"
    using n unfolding u by simp_all
  ultimately show ?thesis
    unfolding b e
    using subarray_from_end [of "t * n" "Suc u * n" buffer] tn diff by simp
qed

lemma frameBounds_multi:
  assumes "1 < count" "0 < n" "length buffer = count * n"
  shows "frameBounds count (Fin (of_nat n)) buffer i =
           (js_rem i (int count), Fin (of_int (js_rem i (int count) * int n)),
            Fin (of_int (js_rem i (int count) * int n + int n)))"
proof -
  have "count * n \<noteq> n" using assms by simp
  then have "(of_nat (length buffer) :: rat) \<noteq> of_nat n"
    using assms(3) by (simp only: of_nat_eq_iff) simp
  then show ?thesis
    by (simp add: frameBounds_def Let_def)
qed

lemma frameSlice_single:
  "length buffer = n \<Longrightarrow> frameSlice count (Fin (of_nat n)) buffer i = buffer"
  by (simp add: frameSlice_def frameBounds_def subarray_def Let_def)

lemma frameSlice_multi:
  assumes c: "0 < count" and n: "0 < n" and len: "length buffer = count * n"
    and i: "0 \<le> i \<or> i mod int count \<noteq> int count - 1"
  shows "frameSlice count (Fin (of_nat n)) buffer i =
           take n (drop (nat (i mod int count) * n) buffer)"
proof (cases "count = 1")
  case True
  then show ?thesis using len by (simp add: frameSlice_single)
next
  case False
  then have c1: "1 < count" using c by simp
  note fb = frameBounds_multi [OF c1 n len, of i]
  define t where "t = nat ((- i) mod int count)"
  have t_lt: "t < count" using c by (simp add: t_def nat_less_iff)
  show ?thesis
  proof (cases "0 \<le> i")
    case True
    define r where "r = nat (i mod int count)"
    have r: "r < count" "int r = i mod int count"
      using c by (simp_all add: r_def nat_less_iff)
    have rem: "js_rem i (int count) = int r"
      using True c r by (simp add: js_rem_nonneg)
    show ?thesis
      unfolding frameSlice_def fb rem r_def [symmetric]
      using subarray_frame [OF len r(1)] by simp
  next
    case neg: False
    then have ineg: "i < 0" by simp
    have tt: "int t = (- i) mod int count"
      using c by (simp add: t_def)
    have rem: "js_rem i (int count) = - int t"
      using ineg c by (simp add: js_rem_neg tt)
    have "i mod int count = (- (- i)) mod int count" by simp
    also have "\<dots> = (if (- i) mod int count = 0 then 0 else int count - (- i) mod int count)"
      by (rule zmod_zminus1_eq_if)
    finally have modrel: "i mod int count = (if int t = 0 then 0 else int count - int t)"
      unfolding tt .
    show ?thesis
    proof (cases "t = 0")
      case True
      have m0: "nat (i mod int count) = 0" using modrel True by simp
      have r0: "js_rem i (int count) = int 0" using rem True by simp
      show ?thesis
        unfolding frameSlice_def fb r0 m0
        using subarray_frame [OF len c] by simp
    next
      case False
      then have im: "i mod int count = int count - int t" using modrel by simp
      with i neg have "t \<noteq> 1" by auto
      with False have t2: "2 \<le> t" by simp
      have m: "nat (i mod int count) = count - t"
        unfolding im using t_lt by linarith
      show ?thesis
        unfolding frameSlice_def fb rem m
        using subarray_frame_from_end [OF len n t2 t_lt] by simp
    qed
  qed
qed

subsection \<open>The coordinator invariant holds in every reachable state\<close>

lemma measureGlyphs_fields [simp]:
  "gifLoaded (measureGlyphs P f d s) = gifLoaded s"
  "isUpdating (measureGlyphs P f d s) = isUpdating s"
  "pendingUpdate (measureGlyphs P f d s) = pendingUpdate s"
  "paramsRef (measureGlyphs P f d s) = paramsRef s"
  "state_params (measureGlyphs P f d s) = state_params s"
  "convertPending (measureGlyphs P f d s) = convertPending s"
  "convertLog (measureGlyphs P f d s) = convertLog s"
  "error (measureGlyphs P f d s) = error s"
  "asciiBuffer (measureGlyphs P f d s) = asciiBuffer s"
  "asciiRef (measureGlyphs P f d s) = asciiRef s"
  "meta_count (measureGlyphs P f d s) = meta_count s"
  "meta_size (measureGlyphs P f d s) = meta_size s"
  "timers (measureGlyphs P f d s) = timers s"
  "debounceTimer (measureGlyphs P f d s) = debounceTimer s"
  "nextTimerId (measureGlyphs P f d s) = nextTimerId s"
  "isInteractive (measureGlyphs P f d s) = isInteractive s"
  "currentFrameIdx (measureGlyphs P f d s) = currentFrameIdx s"
  "animating (measureGlyphs P f d s) = animating s"
  "loading (measureGlyphs P f d s) = loading s"
  "previewPending (measureGlyphs P f d s) = previewPending s"
  by (simp_all add: measureGlyphs_eq Let_def split: option.splits)

lemma convert_apply_fields [simp]:
  "gifLoaded (convert_apply P f d s) = gifLoaded s"
  "isUpdating (convert_apply P f d s) = isUpdating s"
  "pendingUpdate (convert_apply P f d s) = pendingUpdate s"
  "paramsRef (convert_apply P f d s) = paramsRef s"
  "state_params (convert_apply P f d s) = state_params s"
  "convertPending (convert_apply P f d s) = convertPending s"
  "convertLog (convert_apply P f d s) = convertLog s"
  "error (convert_apply P f d s) = error s"
  "meta_count (convert_apply P f d s) = meta_count s"
  "timers (convert_apply P f d s) = timers s"
  "debounceTimer (convert_apply P f d s) = debounceTimer s"
  "nextTimerId (convert_apply P f d s) = nextTimerId s"
  "isInteractive (convert_apply P f d s) = isInteractive s"
  "animating (convert_apply P f d s) = animating s"
  "loading (convert_apply P f d s) = loading s"
  by (simp_all add: convert_apply_def Let_def split: option.splits)

lemma convert_fields [simp]:
  "gifLoaded (convert g f s) = gifLoaded s"
  "paramsRef (convert g f s) = paramsRef s"
  "state_params (convert g f s) = state_params s"
  "error (convert g f s) = error s"
  "timers (convert g f s) = timers s"
  "debounceTimer (convert g f s) = debounceTimer s"
  "nextTimerId (convert g f s) = nextTimerId s"
  "isInteractive (convert g f s) = isInteractive s"
  "currentFrameIdx (convert g f s) = currentFrameIdx s"
  by (simp_all add: convert_def convert_issue_def Let_def)

lemma convert_while_updating:
  "isUpdating s \<Longrightarrow>
   convertPending (convert g f s) = convertPending s \<and>
   convertLog (convert g f s) = convertLog s \<and>
   isUpdating (convert g f s) \<and>
   (g \<longrightarrow> pendingUpdate (convert g f s))"
  by (simp add: convert_def)

lemma convert_when_idle:
  "\<not> isUpdating s \<Longrightarrow>
   convertPending (convert True f s) = convertPending s @ [(paramsRef s, f)] \<and>
   convertLog (convert True f s) = convertLog s @ [(paramsRef s, f)] \<and>
   isUpdating (convert True f s) \<and> \<not> pendingUpdate (convert True f s)"
  by (simp add: convert_def convert_issue_def Let_def)

lemma handleParamChange_eq:
  "handleParamChange p s =
     (let s3 = convert (gifLoaded s) (Some (currentFrameIdx s))
                 (s\<lparr>isInteractive := True, state_params := p\<rparr>)
      in s3\<lparr>timers := filter (\<lambda>x. Some (fst x) \<noteq> debounceTimer s) (timers s) @
                          [(nextTimerId s, gifLoaded s)],
            nextTimerId := Suc (nextTimerId s),
            debounceTimer := Some (nextTimerId s)\<rparr>)"
  by (cases "debounceTimer s") (simp_all add: handleParamChange_def clearTimeout_def Let_def)

lemma coordinated_init: "coordinated (init vp)"
  by (simp add: coordinated_def init_def)

lemma coordinated_convert:
  assumes "coordinated s" "g \<longrightarrow> gifLoaded s"
  shows "coordinated (convert g f s)"
  using assms
  by (auto simp: coordinated_def convert_def convert_issue_def Let_def)

lemma coordinated_step:
  assumes "coordinated s"
  shows "coordinated (step P e s)"
proof (cases e)
  case OpenSelected
  with assms show ?thesis by (simp add: coordinated_def handleOpen_selected_def)
next
  case (LoadResolved n)
  show ?thesis
  proof (cases "loading s \<and> \<not> gifLoaded s")
    case True
    let ?s2 = "s\<lparr>meta_count := n, gifLoaded := True, loading := False\<rparr>"
    have "coordinated ?s2" using assms by (simp add: coordinated_def)
    then have "coordinated (convert True None ?s2)" by (rule coordinated_convert) simp
    then have "coordinated ((convert True None ?s2)\<lparr>animating := (1 < n)\<rparr>)"
      by (simp add: coordinated_def)
    with True LoadResolved show ?thesis by (simp add: handleOpen_resolved_def)
  next
    case False
    with assms LoadResolved show ?thesis
      by (auto simp: coordinated_def handleOpen_resolved_def)
  qed
next
  case (LoadRejected x)
  with assms show ?thesis by (simp add: coordinated_def handleOpen_rejected_def)
next
  case (Edit p)
  let ?s3 = "convert (gifLoaded s) (Some (currentFrameIdx s)) (s\<lparr>isInteractive := True, state_params := p\<rparr>)"
  have "coordinated (s\<lparr>isInteractive := True, state_params := p\<rparr>)"
    using assms by (simp add: coordinated_def)
  then have c3: "coordinated ?s3" by (rule coordinated_convert) simp
  have "\<forall>x \<in> set (timers s). \<not> Some (fst x) \<noteq> debounceTimer s"
    using assms by (auto simp: coordinated_def)
  then have cleared: "filter (\<lambda>x. Some (fst x) \<noteq> debounceTimer s) (timers s) = []"
    by (simp only: filter_empty_conv) 
  have "coordinated (handleParamChange p s)"
    using c3 unfolding handleParamChange_eq Let_def cleared
    by (auto simp: coordinated_def)
  then show ?thesis unfolding Edit by simp
next
  case Commit
  with assms show ?thesis by (simp add: coordinated_def params_effect_def)
next
  case (TimerFired t)
  show ?thesis
  proof (cases "map_of (timers s) t")
    case None
    with TimerFired assms show ?thesis by (simp add: timer_fired_def)
  next
    case (Some g)
    then have mem: "(t, g) \<in> set (timers s)" by (rule map_of_SomeD)
    let ?s2 = "(clearTimeout t s)\<lparr>isInteractive := False\<rparr>"
    have "coordinated ?s2"
      using assms by (auto simp: coordinated_def clearTimeout_def intro: le_trans [OF length_filter_le])
    moreover have "g \<longrightarrow> gifLoaded ?s2"
      using assms mem by (auto simp: coordinated_def clearTimeout_def)
    ultimately have "coordinated (convert g None ?s2)" by (rule coordinated_convert)
    with Some TimerFired show ?thesis by (simp add: timer_fired_def Let_def)
  qed
next
  case (ConvertResolved echo data)
  show ?thesis
  proof (cases "convertPending s")
    case Nil
    with ConvertResolved assms show ?thesis by (simp add: convert_resolved_def)
  next
    case (Cons req rest)
    then have rest: "rest = []" using assms by (simp add: coordinated_def)
    let ?s1 = "convert_apply P (snd req) data (s\<lparr>convertPending := rest\<rparr>)"
    have upd: "isUpdating s" "gifLoaded s" using assms Cons by (auto simp: coordinated_def)
    have "coordinated (?s1\<lparr>isUpdating := False\<rparr>)"
      using assms rest by (simp add: coordinated_def)
    moreover have "coordinated (convert_issue (snd req) ?s1)"
      using assms rest upd by (simp add: coordinated_def convert_issue_def Let_def)
    ultimately show ?thesis
      using Cons ConvertResolved by (simp add: convert_resolved_def Let_def)
  qed
next
  case (ConvertRejected x)
  with assms show ?thesis
    by (auto simp: coordinated_def convert_rejected_def Let_def split: list.splits)
next
  case (PreviewResolved k b)
  with assms show ?thesis by (simp add: coordinated_def updatePreview_resolved_def)
next
  case (PreviewRejected k x)
  with assms show ?thesis by (simp add: coordinated_def updatePreview_rejected_def)
next
  case (Tick time)
  with assms show ?thesis by (simp add: coordinated_def animate_def Let_def)
next
  case (Resized w h)
  with assms show ?thesis by (simp add: coordinated_def resized_def)
qed

lemma coordinated_run: "coordinated s \<Longrightarrow> coordinated (run P evs s)"
  by (induction evs arbitrary: s) (simp_all add: coordinated_step)

lemma coordinated_reachable: "coordinated (run P evs (init vp))"
  by (simp add: coordinated_run coordinated_init)

subsection \<open>Installing the response of a bulk conversion\<close>

lemma convert_issue_fields [simp]:
  "error (convert_issue f s) = error s"
  "asciiBuffer (convert_issue f s) = asciiBuffer s"
  "meta_size (convert_issue f s) = meta_size s"
  "meta_count (convert_issue f s) = meta_count s"
  "isUpdating (convert_issue f s) = isUpdating s"
  "paramsRef (convert_issue f s) = paramsRef s"
  "convertPending (convert_issue f s) = convertPending s @ [(paramsRef s, f)]"
  "convertLog (convert_issue f s) = convertLog s @ [(paramsRef s, f)]"
  "pendingUpdate (convert_issue f s) = False"
  by (simp_all add: convert_issue_def Let_def)

lemma convert_resolved_eq:
  "convertPending s = req # rest \<Longrightarrow>
   convert_resolved P data s =
     (if \<not> pendingUpdate s
      then (convert_apply P (snd req) data (s\<lparr>convertPending := rest\<rparr>))\<lparr>isUpdating := False\<rparr>
      else convert_issue (snd req) (convert_apply P (snd req) data (s\<lparr>convertPending := rest\<rparr>)))"
  by (simp add: convert_resolved_def Let_def)

lemma convert_apply_bulk:
  "data \<noteq> [] \<Longrightarrow>
   asciiBuffer (convert_apply P None data s) = Some data \<and>
   meta_size (convert_apply P None data s) = js_div (int (length data)) (int (meta_count s))"
  by (simp add: convert_apply_def Let_def)

lemma js_div_exact:
  assumes "0 < c" and "c dvd n"
  shows "js_div (int n) (int c) = Fin (of_nat (n div c))"
proof -
  obtain k where k: "n = c * k" using assms(2) by (auto simp: dvd_def)
  then show ?thesis using assms(1) by (simp add: js_div_def)
qed

lemma loaded_state_3_facts:
  "convertPending (loaded_state 3) = [(sample_params 0, None)] \<and> meta_count (loaded_state 3) = 3 \<and>
   sample_bytes 12 \<noteq> [] \<and> length (sample_bytes 12) = 12"
  by code_simp

text \<open>
  Claim C2, as stated, fails: the code has no layout check and no \<open>InvalidLayout\<close> error.
  With three frames loaded, a bulk response of ten bytes is installed like any other:
  no error is recorded, the buffer is replaced, and the frame size becomes the quotient
  \<open>10 / 3\<close>, which is not an integer.
\<close>

theorem C2_ten_bytes_three_frames_counterexample:
  "\<not> 3 dvd length (sample_bytes 10) \<and>
   meta_count (loaded_state 3) = 3 \<and>
   error (step sample_platform (ConvertResolved 3 (sample_bytes 10)) (loaded_state 3)) = '''' \<and>
   asciiBuffer (step sample_platform (ConvertResolved 3 (sample_bytes 10)) (loaded_state 3)) =
     Some (sample_bytes 10) \<and>
   meta_size (step sample_platform (ConvertResolved 3 (sample_bytes 10)) (loaded_state 3)) =
     js_div 10 3 \<and>
   js_div 10 3 = Fin (10 / 3)"
  by code_simp

text \<open>
  Claim C2, amended. The bulk install never fails on the layout: for every non-empty
  response of a bulk conversion the buffer is replaced by the response, no error is
  recorded, and the frame size is set to the quotient of the length and the frame
  count. When the frame count is positive and divides the length, that quotient is the
  integer \<open>length div count\<close>.
\<close>

theorem C2_bulk_install_accepts_every_length:
  assumes "convertPending s = (p, None) # rest" and "data \<noteq> []"
  shows "error (step P (ConvertResolved echo data) s) = error s \<and>
         asciiBuffer (step P (ConvertResolved echo data) s) = Some data \<and>
         meta_size (step P (ConvertResolved echo data) s) =
           js_div (int (length data)) (int (meta_count s)) \<and>
         (0 < meta_count s \<and> meta_count s dvd length data \<longrightarrow>
            meta_size (step P (ConvertResolved echo data) s) =
              Fin (of_nat (length data div meta_count s)))"
proof -
  have "asciiBuffer (step P (ConvertResolved echo data) s) = Some data"
       "meta_size (step P (ConvertResolved echo data) s) =
          js_div (int (length data)) (int (meta_count s))"
       "error (step P (ConvertResolved echo data) s) = error s"
    using convert_apply_bulk [OF assms(2), of P "s\<lparr>convertPending := rest\<rparr>"]
    by (simp_all add: convert_resolved_eq [OF assms(1)])
  then show ?thesis by (simp add: js_div_exact)
qed

theorem C2_bulk_install_accepts_every_length_witness:
  "error (step sample_platform (ConvertResolved 3 (sample_bytes 12)) (loaded_state 3)) =
     error (loaded_state 3) \<and>
   asciiBuffer (step sample_platform (ConvertResolved 3 (sample_bytes 12)) (loaded_state 3)) =
     Some (sample_bytes 12) \<and>
   meta_size (step sample_platform (ConvertResolved 3 (sample_bytes 12)) (loaded_state 3)) = Fin 4"
  using C2_bulk_install_accepts_every_length
          [where s = "loaded_state 3" and p = "sample_params 0" and rest = "[]"
             and data = "sample_bytes 12" and P = sample_platform and echo = 3]
        loaded_state_3_facts
  by (simp add: js_div_def)

subsection \<open>The slice shown for a frame index\<close>

lemma renderFrame_text:
  assumes "asciiRef s \<noteq> None" and "meta_count s \<noteq> 0"
    and "(case ov of Some b \<Rightarrow> Some b | None \<Rightarrow> asciiBuffer s) = Some buffer"
  shows "map_option textContent (asciiRef (renderFrame P i ov s)) =
           Some (decode P (frameSlice (meta_count s) (meta_size s) buffer i))"
proof -
  obtain el where el: "asciiRef s = Some el" using assms(1) by auto
  let ?s2 = "s\<lparr>asciiRef := Some (el\<lparr>textContent :=
                 decode P (frameSlice (meta_count s) (meta_size s) buffer i)\<rparr>),
               currentFrameIdx := fst (frameBounds (meta_count s) (meta_size s) buffer i)\<rparr>"
  have "renderFrame P i ov s =
          updatePreview (fst (frameBounds (meta_count s) (meta_size s) buffer i))
            (calculateAndApplyScale ?s2)"
    using assms(2,3) el by (simp add: renderFrame_def Let_def)
  then show ?thesis by simp
qed

lemma renderFrame_index_nonneg:
  assumes "0 \<le> i" and "0 \<le> currentFrameIdx s"
  shows "0 \<le> currentFrameIdx (renderFrame P i ov s)"
proof -
  have "meta_count s \<noteq> 0 \<Longrightarrow> 0 \<le> js_rem i (int (meta_count s))"
    using assms(1) by (simp add: js_rem_nonneg)
  then show ?thesis
    using assms(2)
    by (simp add: renderFrame_def frameBounds_def Let_def split: option.splits)
qed

lemma convert_issue_index [simp]:
  "currentFrameIdx (convert_issue f s) = currentFrameIdx s"
  by (simp add: convert_issue_def Let_def)

lemma convert_apply_index_nonneg:
  assumes "0 \<le> currentFrameIdx s" and "\<forall>x. f = Some x \<longrightarrow> 0 \<le> x"
  shows "0 \<le> currentFrameIdx (convert_apply P f data s)"
  using assms
  by (cases f) (simp_all add: convert_apply_def Let_def renderFrame_index_nonneg)

lemma nonneg_indices_convert:
  assumes "nonneg_indices s" and "\<forall>x. f = Some x \<longrightarrow> 0 \<le> x"
  shows "nonneg_indices (convert g f s)"
  using assms by (auto simp: nonneg_indices_def convert_def convert_issue_def Let_def)

lemma nonneg_indices_step:
  assumes "nonneg_indices s"
  shows "nonneg_indices (step P e s)"
proof (cases e)
  case OpenSelected
  with assms show ?thesis by (simp add: nonneg_indices_def handleOpen_selected_def)
next
  case (LoadResolved n)
  with assms show ?thesis
    by (auto simp: nonneg_indices_def handleOpen_resolved_def convert_def convert_issue_def
          Let_def)
next
  case (LoadRejected x)
  with assms show ?thesis by (simp add: nonneg_indices_def handleOpen_rejected_def)
next
  case (Edit p)
  have "nonneg_indices (s\<lparr>isInteractive := True, state_params := p\<rparr>)"
    using assms by (simp add: nonneg_indices_def)
  then have "nonneg_indices
               (convert (gifLoaded s) (Some (currentFrameIdx s))
                  (s\<lparr>isInteractive := True, state_params := p\<rparr>))"
    using assms by (intro nonneg_indices_convert) (simp_all add: nonneg_indices_def)
  then show ?thesis unfolding Edit
    by (simp add: handleParamChange_eq Let_def nonneg_indices_def)
next
  case Commit
  with assms show ?thesis by (simp add: nonneg_indices_def params_effect_def)
next
  case (TimerFired t)
  show ?thesis
  proof (cases "map_of (timers s) t")
    case None
    with TimerFired assms show ?thesis by (simp add: timer_fired_def)
  next
    case (Some g)
    have "nonneg_indices ((clearTimeout t s)\<lparr>isInteractive := False\<rparr>)"
      using assms by (simp add: nonneg_indices_def clearTimeout_def)
    then have "nonneg_indices (convert g None ((clearTimeout t s)\<lparr>isInteractive := False\<rparr>))"
      by (rule nonneg_indices_convert) simp
    with Some TimerFired show ?thesis by (simp add: timer_fired_def Let_def)
  qed
next
  case (ConvertResolved echo data)
  show ?thesis
  proof (cases "convertPending s")
    case Nil
    with ConvertResolved assms show ?thesis by (simp add: convert_resolved_def)
  next
    case (Cons req rest)
    have f: "\<forall>x. snd req = Some x \<longrightarrow> 0 \<le> x"
      using assms Cons by (simp add: nonneg_indices_def)
    have rest: "\<forall>r \<in> set rest. \<forall>x. snd r = Some x \<longrightarrow> 0 \<le> x"
      using assms Cons by (simp add: nonneg_indices_def)
    have "0 \<le> currentFrameIdx (s\<lparr>convertPending := rest\<rparr>)"
      using assms by (simp add: nonneg_indices_def)
    then have "0 \<le> currentFrameIdx (convert_apply P (snd req) data (s\<lparr>convertPending := rest\<rparr>))"
      using f by (rule convert_apply_index_nonneg)
    then show ?thesis
      using f rest unfolding ConvertResolved
      by (simp add: convert_resolved_eq [OF Cons] nonneg_indices_def)
  qed
next
  case (ConvertRejected x)
  with assms show ?thesis
    by (auto simp: nonneg_indices_def convert_rejected_def Let_def split: list.splits)
next
  case (PreviewResolved k b)
  with assms show ?thesis by (simp add: nonneg_indices_def updatePreview_resolved_def)
next
  case (PreviewRejected k x)
  with assms show ?thesis by (simp add: nonneg_indices_def updatePreview_rejected_def)
next
  case (Tick time)
  have "0 \<le> currentFrameIdx (renderFrame P (currentFrameIdx s + 1) None (s\<lparr>lastFrameTime := time\<rparr>))"
    using assms by (intro renderFrame_index_nonneg) (simp_all add: nonneg_indices_def)
  with assms Tick show ?thesis by (simp add: nonneg_indices_def animate_def Let_def)
next
  case (Resized w h)
  with assms show ?thesis by (simp add: nonneg_indices_def resized_def)
qed

lemma nonneg_indices_run: "nonneg_indices s \<Longrightarrow> nonneg_indices (run P evs s)"
  by (induction evs arbitrary: s) (simp_all add: nonneg_indices_step)

lemma nonneg_indices_reachable: "nonneg_indices (run P evs (init vp))"
  by (rule nonneg_indices_run) (simp add: nonneg_indices_def init_def)

lemma five_frames_state_facts:
  "asciiRef five_frames_state \<noteq> None \<and> meta_count five_frames_state = 5 \<and>
   meta_size five_frames_state = Fin (of_nat 10) \<and>
   asciiBuffer five_frames_state = Some (sample_bytes 50) \<and>
   length (sample_bytes 50) = 5 * 10 \<and> length (sample_bytes 10) = 10"
  by code_simp

text \<open>
  Claim C4. A frame index is an integer that is not negative: in every state that the
  component reaches, \<open>currentFrameIdx\<close> and the \<open>onlyFrame\<close> of a pending conversion call
  are not negative, and \<open>renderFrame\<close> is only called with one of them or with
  \<open>currentFrameIdx + 1\<close>. For a buffer of \<open>count > 0\<close> frames of \<open>n > 0\<close> bytes each and
  every frame index \<open>i\<close>, the slice that \<open>renderFrame\<close> decodes and shows is the \<open>n\<close>
  bytes from \<open>(i mod count) * n\<close>; so with five frames of ten bytes the indices 7 and 2
  give the same bytes. For a buffer whose length is the frame size (a single refreshed
  frame) the slice is the whole buffer, whatever the index.
\<close>

theorem C4_slice_of_frame_index:
  assumes "0 < count" and "0 < n"
    and "asciiRef s \<noteq> None" and "meta_count s = count" and "meta_size s = Fin (of_nat n)"
    and "asciiBuffer s = Some buffer" and "length buffer = count * n"
    and "length single = n"
    and "0 \<le> i"
  shows "frameSlice count (meta_size s) buffer i =
           take n (drop (nat (i mod int count) * n) buffer) \<and>
         map_option textContent (asciiRef (renderFrame P i None s)) =
           Some (decode P (take n (drop (nat (i mod int count) * n) buffer))) \<and>
         frameSlice count (meta_size s) single j = single \<and>
         map_option textContent (asciiRef (renderFrame P j (Some single) s)) =
           Some (decode P single) \<and>
         0 \<le> currentFrameIdx (run P evs (init vp)) \<and>
         (\<forall>r \<in> set (convertPending (run P evs (init vp))). \<forall>f. snd r = Some f \<longrightarrow> 0 \<le> f)"
proof -
  have i: "0 \<le> i \<or> i mod int count \<noteq> int count - 1" using assms(9) by simp
  have multi: "frameSlice count (meta_size s) buffer i =
                 take n (drop (nat (i mod int count) * n) buffer)"
    unfolding assms(5) using assms(1,2,7) i by (rule frameSlice_multi)
  have single: "frameSlice count (meta_size s) single j = single"
    unfolding assms(5) using assms(8) by (rule frameSlice_single)
  have c: "meta_count s \<noteq> 0" using assms(1,4) by simp
  have "map_option textContent (asciiRef (renderFrame P i None s)) =
          Some (decode P (frameSlice (meta_count s) (meta_size s) buffer i))"
    using assms(3) c by (rule renderFrame_text) (simp add: assms(6))
  moreover have "map_option textContent (asciiRef (renderFrame P j (Some single) s)) =
          Some (decode P (frameSlice (meta_count s) (meta_size s) single j))"
    using assms(3) c by (rule renderFrame_text) simp
  moreover have "0 \<le> currentFrameIdx (run P evs (init vp)) \<and>
         (\<forall>r \<in> set (convertPending (run P evs (init vp))). \<forall>f. snd r = Some f \<longrightarrow> 0 \<le> f)"
    using nonneg_indices_reachable [of P evs vp] by (simp add: nonneg_indices_def)
  ultimately show ?thesis
    using multi single by (simp add: assms(4))
qed

lemma converting_edit_state_pending:
  "convertPending converting_edit_state = [(sample_params 0, Some 0)] \<and>
   currentFrameIdx converting_edit_state = 0"
  by code_simp

theorem C4_slice_of_frame_index_witness:
  "frameSlice 5 (Fin 10) (sample_bytes 50) 7 = take 10 (drop 20 (sample_bytes 50)) \<and>
   frameSlice 5 (Fin 10) (sample_bytes 50) 7 = frameSlice 5 (Fin 10) (sample_bytes 50) 2 \<and>
   frameSlice 5 (Fin 10) (sample_bytes 10) 7 = sample_bytes 10 \<and>
   convertPending converting_edit_state = [(sample_params 0, Some 0)] \<and>
   0 \<le> currentFrameIdx converting_edit_state"
proof -
  have h: "(0::int) \<le> 7" "(0::int) \<le> 2" "(0::nat) < 5" "(0::nat) < 10"
    by simp_all
  show ?thesis
    using C4_slice_of_frame_index
            [where count = 5 and n = 10 and s = five_frames_state and buffer = "sample_bytes 50"
               and single = "sample_bytes 10" and i = 7 and j = 7 and P = sample_platform
               and evs = "[OpenSelected, LoadResolved 2, ConvertResolved 2 (sample_bytes 20),
                           Edit (sample_params 10), Commit]"
               and vp = sample_viewport, folded converting_edit_state_def]
          C4_slice_of_frame_index
            [where count = 5 and n = 10 and s = five_frames_state and buffer = "sample_bytes 50"
               and single = "sample_bytes 10" and i = 2 and j = 7 and P = sample_platform
               and evs = "[]" and vp = sample_viewport]
          five_frames_state_facts converting_edit_state_pending h
    by simp
qed

subsection \<open>The slice computed from a stale frame size\<close>

text \<open>
  Claim C5 does not hold of the code. In \<open>stale_size_state\<close> the installed buffer is still
  the bulk response for the old width (two frames of ten bytes), while the frame size is
  the length of the last single-frame response (30 bytes, for the new width). The next
  animation tick renders frame 1 from the installed buffer with \<open>start = 30\<close> and
  \<open>end = 60\<close>, both beyond its 20 bytes; \<open>subarray\<close> clamps the bounds and the surface
  shows the empty text.
\<close>

theorem C5_stale_frame_size_out_of_bounds:
  "asciiBuffer stale_size_state = Some (sample_bytes 20) \<and>
   length (sample_bytes 20) = 20 \<and>
   meta_count stale_size_state = 2 \<and>
   meta_size stale_size_state = Fin 30 \<and>
   animating stale_size_state \<and> \<not> isInteractive stale_size_state \<and>
   currentFrameIdx stale_size_state = 0 \<and>
   frameBounds 2 (Fin 30) (sample_bytes 20) 1 = (1, Fin 30, Fin 60) \<and>
   map_option textContent (asciiRef (step sample_platform (Tick 1000) stale_size_state)) =
     Some ''''"
  by code_simp

subsection \<open>Responses of the preview call\<close>

text \<open>
  Claim C3, as stated, fails: preview requests carry no tag and no response is
  discarded. In \<open>preview_race_state\<close> the current brightness is 20 and three preview
  calls are pending, issued at brightness 0, 10 and 20. The response to the newest is
  applied first; the response to the call issued at brightness 10 arrives after it and
  replaces it.
\<close>

theorem C3_stale_preview_overwrites_counterexample:
  "previewPending preview_race_state = [(0, 1, 0), (10, 1, 0), (20, 1, 0)] \<and>
   brightness (paramsRef preview_race_state) = 20 \<and>
   adjustedPreviewUrl
     (step sample_platform (PreviewResolved 2 ''preview at 20'') preview_race_state) =
     ''preview at 20'' \<and>
   adjustedPreviewUrl
     (run sample_platform
        [PreviewResolved 2 ''preview at 20'', PreviewResolved 1 ''preview at 10'']
        preview_race_state) = ''preview at 10''"
  by code_simp

text \<open>
  Claim C3, amended. Every response to a pending preview call is applied when it
  arrives, whatever the parameters were when the call was issued and whatever they are
  now: the preview image becomes the response (the last response applied wins), and
  only that call leaves the pending ones.
\<close>

theorem C3_preview_response_always_applied:
  "k < length (previewPending s) \<Longrightarrow>
   adjustedPreviewUrl (step P (PreviewResolved k b64) s) = b64 \<and>
   previewPending (step P (PreviewResolved k b64) s) =
     take k (previewPending s) @ drop (Suc k) (previewPending s) \<and>
   paramsRef (step P (PreviewResolved k b64) s) = paramsRef s"
  by (simp add: updatePreview_resolved_def)

lemma preview_race_state_facts:
  "previewPending preview_race_state = [(0, 1, 0), (10, 1, 0), (20, 1, 0)] \<and>
   brightness (paramsRef preview_race_state) = 20"
  by code_simp

theorem C3_preview_response_always_applied_witness:
  "brightness (paramsRef preview_race_state) = 20 \<and>
   previewPending preview_race_state ! 1 = (10, 1, 0) \<and>
   adjustedPreviewUrl
     (step sample_platform (PreviewResolved 1 ''preview at 10'') preview_race_state) =
     ''preview at 10'' \<and>
   previewPending
     (step sample_platform (PreviewResolved 1 ''preview at 10'') preview_race_state) =
     [(0, 1, 0), (20, 1, 0)]"
  using C3_preview_response_always_applied
          [of 1 preview_race_state sample_platform "''preview at 10''"]
        preview_race_state_facts
  by simp

subsection \<open>Failing calls\<close>

lemma playing_state_facts:
  "previewPending playing_state = [(0, 1, 0)] \<and> error playing_state = '''' \<and>
   gifLoaded playing_state \<and> \<not> isUpdating playing_state \<and>
   convertPending (loaded_state 2) = [(sample_params 0, None)] \<and>
   gifLoaded (loaded_state 2) \<and> paramsRef (loaded_state 2) = sample_params 0 \<and>
   convertLog (loaded_state 2) = [(sample_params 0, None)]"
  by code_simp

text \<open>
  Claim C8, as stated, fails for the preview call: its failure is caught and written to
  the console, and the error shown to the user is not set.
\<close>

theorem C8_preview_failure_not_recorded_counterexample:
  "previewPending playing_state = [(0, 1, 0)] \<and>
   error playing_state = '''' \<and>
   error (step sample_platform (PreviewRejected 0 ''decode failed'') playing_state) = '''' \<and>
   console (step sample_platform (PreviewRejected 0 ''decode failed'') playing_state) =
     [''Preview error: decode failed'']"
  by code_simp

text \<open>
  Claim C8, amended. A failing conversion call is caught in \<open>convert\<close>: the error is
  recorded for display, \<open>isUpdating\<close> is cleared, and nothing else changes (the frame
  buffer, the frame metadata, the surface and the playback state are what they were),
  so that the next conversion request is issued at once. A failing preview call is
  caught as well, but only logged to the console: it is not recorded as the error for
  display, and it changes nothing else.
\<close>

theorem C8_failures_leave_state:
  "(convertPending s = req # rest \<longrightarrow>
      step P (ConvertRejected e) s =
        s\<lparr>error := e, isUpdating := False, convertPending := rest\<rparr> \<and>
      convertPending (convert True f (step P (ConvertRejected e) s)) =
        rest @ [(paramsRef s, f)]) \<and>
   (k < length (previewPending s) \<longrightarrow>
      step P (PreviewRejected k e) s =
        s\<lparr>console := console s @ [''Preview error: '' @ e],
          previewPending := take k (previewPending s) @ drop (Suc k) (previewPending s)\<rparr>)"
  by (simp add: convert_rejected_def updatePreview_rejected_def Let_def
        convert_def convert_issue_def)

theorem C8_failures_leave_state_witness:
  "step sample_platform (ConvertRejected ''conversion failed'') (loaded_state 2) =
     (loaded_state 2)\<lparr>error := ''conversion failed'', isUpdating := False,
                      convertPending := []\<rparr> \<and>
   convertPending
     (convert True None
        (step sample_platform (ConvertRejected ''conversion failed'') (loaded_state 2))) =
     [(sample_params 0, None)] \<and>
   step sample_platform (PreviewRejected 0 ''decode failed'') playing_state =
     playing_state\<lparr>console := console playing_state @ [''Preview error: decode failed''],
                   previewPending := []\<rparr>"
  using C8_failures_leave_state
          [where s = "loaded_state 2" and req = "(sample_params 0, None)" and rest = "[]"
             and P = sample_platform and e = "''conversion failed''" and f = None and k = 0]
        C8_failures_leave_state
          [where s = playing_state and req = "(sample_params 0, None)" and rest = "[]"
             and P = sample_platform and e = "''decode failed''" and f = None and k = 0]
        playing_state_facts
  by (simp add: convert_def convert_issue_def Let_def)

subsection \<open>Single flight and coalescing of conversion calls\<close>

lemma step_while_converting:
  assumes "coordinated s" and "convertPending s = [r]" and "\<not> is_response e"
  shows "convertPending (step P e s) = [r] \<and> convertLog (step P e s) = convertLog s \<and>
         (pendingUpdate s \<longrightarrow> pendingUpdate (step P e s))"
proof -
  have upd: "isUpdating s" "gifLoaded s" using assms(1,2) by (auto simp: coordinated_def)
  show ?thesis
  proof (cases e)
    case OpenSelected
    with assms show ?thesis by (simp add: handleOpen_selected_def)
  next
    case (LoadResolved n)
    with assms upd show ?thesis by (simp add: handleOpen_resolved_def)
  next
    case (LoadRejected x)
    with assms show ?thesis by (simp add: handleOpen_rejected_def)
  next
    case (Edit p)
    have "isUpdating (s\<lparr>isInteractive := True, state_params := p\<rparr>)" using upd by simp
    from convert_while_updating [OF this, of "gifLoaded s" "Some (currentFrameIdx s)"]
    show ?thesis using assms(2) upd unfolding Edit
      by (simp add: handleParamChange_eq Let_def)
  next
    case Commit
    with assms show ?thesis by (simp add: params_effect_def)
  next
    case (TimerFired t)
    show ?thesis
    proof (cases "map_of (timers s) t")
      case None
      with TimerFired assms show ?thesis by (simp add: timer_fired_def)
    next
      case (Some g)
      have "isUpdating ((clearTimeout t s)\<lparr>isInteractive := False\<rparr>)"
        using upd by (simp add: clearTimeout_def)
      from convert_while_updating [OF this, of g None]
      show ?thesis using assms(2) Some unfolding TimerFired
        by (auto simp: timer_fired_def Let_def clearTimeout_def convert_def)
    qed
  next
    case (ConvertResolved echo data)
    with assms show ?thesis by simp
  next
    case (ConvertRejected x)
    with assms show ?thesis by simp
  next
    case (PreviewResolved k b)
    with assms show ?thesis by (simp add: updatePreview_resolved_def)
  next
    case (PreviewRejected k x)
    with assms show ?thesis by (simp add: updatePreview_rejected_def)
  next
    case (Tick time)
    with assms show ?thesis by (simp add: animate_def Let_def)
  next
    case (Resized w h)
    with assms show ?thesis by (simp add: resized_def)
  qed
qed

lemma run_while_converting:
  assumes "coordinated s" and "convertPending s = [r]" and "list_all (\<lambda>e. \<not> is_response e) es"
  shows "coordinated (run P es s) \<and> convertPending (run P es s) = [r] \<and>
         convertLog (run P es s) = convertLog s \<and>
         (pendingUpdate s \<longrightarrow> pendingUpdate (run P es s))"
  using assms
proof (induction es arbitrary: s)
  case Nil
  then show ?case by simp
next
  case (Cons e es)
  have st: "convertPending (step P e s) = [r]" "convertLog (step P e s) = convertLog s"
      "pendingUpdate s \<longrightarrow> pendingUpdate (step P e s)"
    using step_while_converting [of s r e P] Cons.prems by simp_all
  have "coordinated (step P e s)" using Cons.prems(1) by (rule coordinated_step)
  from Cons.IH [OF this st(1)] Cons.prems(3) st show ?case by simp
qed

lemma run_append: "run P (es @ es') s = run P es' (run P es s)"
  by (induction es arbitrary: s) simp_all

lemma edit_then_commit_while_converting:
  assumes "coordinated s" and "convertPending s = [r]"
  shows "convertPending (run P [Edit p, Commit] s) = [r] \<and>
         convertLog (run P [Edit p, Commit] s) = convertLog s \<and>
         pendingUpdate (run P [Edit p, Commit] s) \<and>
         paramsRef (run P [Edit p, Commit] s) = p"
proof -
  have upd: "isUpdating s" "gifLoaded s" using assms by (auto simp: coordinated_def)
  have "isUpdating (s\<lparr>isInteractive := True, state_params := p\<rparr>)" using upd by simp
  from convert_while_updating [OF this, of "gifLoaded s" "Some (currentFrameIdx s)"]
  show ?thesis using assms(2) upd
    by (simp add: handleParamChange_eq Let_def params_effect_def)
qed

lemma resolved_with_replay:
  assumes "convertPending s = [r]" and "pendingUpdate s"
  shows "convertPending (step P (ConvertResolved echo data) s) = [(paramsRef s, snd r)] \<and>
         convertLog (step P (ConvertResolved echo data) s) = convertLog s @ [(paramsRef s, snd r)] \<and>
         isUpdating (step P (ConvertResolved echo data) s) = isUpdating s \<and>
         \<not> pendingUpdate (step P (ConvertResolved echo data) s)"
  using assms(2) by (simp add: convert_resolved_eq [OF assms(1)])

lemma resolved_without_replay:
  assumes "convertPending s = [r]" and "\<not> pendingUpdate s"
  shows "convertPending (step P (ConvertResolved echo data) s) = [] \<and>
         convertLog (step P (ConvertResolved echo data) s) = convertLog s \<and>
         \<not> isUpdating (step P (ConvertResolved echo data) s)"
  using assms(2) by (simp add: convert_resolved_eq [OF assms(1)])

lemma rejected_ends_loop:
  assumes "convertPending s = [r]"
  shows "convertPending (step P (ConvertRejected e) s) = [] \<and>
         convertLog (step P (ConvertRejected e) s) = convertLog s \<and>
         \<not> isUpdating (step P (ConvertRejected e) s)"
  using assms by (simp add: convert_rejected_def Let_def)

text \<open>
  Claim C1. The pending call completes when the awaited call resolves; a call that
  rejects leaves the loop through \<open>catch\<close> and \<open>finally\<close> and is never followed by a
  replay (\<open>rejected_ends_loop\<close>). In every state that the component reaches from its
  initial state, at most one conversion call is pending, and \<open>isUpdating\<close> is set exactly
  while one is. A call of \<open>convert\<close> that arrives meanwhile sets \<open>pendingUpdate\<close> and does
  nothing else. When the pending call resolves with \<open>pendingUpdate\<close> set, exactly one
  further call is issued, with the parameters that \<open>paramsRef\<close> holds at that moment, and
  \<open>pendingUpdate\<close> is clear again while that call is pending. So after any events that
  are not a response to the pending call, followed by a last edit to parameters \<open>p\<close> and
  its render, no call has been issued; the response is followed by exactly one call,
  with parameters \<open>p\<close>, and the response to that call ends the loop: over the whole
  burst one call has been issued. When the pending call resolves with \<open>pendingUpdate\<close>
  clear, the loop ends: no call is issued and \<open>isUpdating\<close> is cleared.
\<close>

theorem C1_single_flight_coalescing:
  assumes "s = run P evs (init vp)"
  shows "length (convertPending s) \<le> 1 \<and>
         (isUpdating s = (convertPending s \<noteq> [])) \<and>
         (isUpdating s \<longrightarrow> convert True f s = s\<lparr>pendingUpdate := True\<rparr>) \<and>
         (convertPending s = [r] \<and> pendingUpdate s \<longrightarrow>
            convertPending (step P (ConvertResolved echo data) s) = [(paramsRef s, snd r)] \<and>
            convertLog (step P (ConvertResolved echo data) s) =
              convertLog s @ [(paramsRef s, snd r)] \<and>
            isUpdating (step P (ConvertResolved echo data) s) \<and>
            \<not> pendingUpdate (step P (ConvertResolved echo data) s)) \<and>
         (convertPending s = [r] \<and> list_all (\<lambda>e. \<not> is_response e) burst \<longrightarrow>
            convertPending (run P (burst @ [Edit p, Commit]) s) = [r] \<and>
            convertLog (run P (burst @ [Edit p, Commit]) s) = convertLog s \<and>
            convertPending (run P (burst @ [Edit p, Commit, ConvertResolved echo data]) s) =
              [(p, snd r)] \<and>
            convertLog (run P (burst @ [Edit p, Commit, ConvertResolved echo data]) s) =
              convertLog s @ [(p, snd r)] \<and>
            \<not> pendingUpdate
                (run P (burst @ [Edit p, Commit, ConvertResolved echo data]) s) \<and>
            convertPending
              (run P (burst @ [Edit p, Commit, ConvertResolved echo data,
                               ConvertResolved echo' data']) s) = [] \<and>
            convertLog
              (run P (burst @ [Edit p, Commit, ConvertResolved echo data,
                               ConvertResolved echo' data']) s) = convertLog s @ [(p, snd r)] \<and>
            \<not> isUpdating
                (run P (burst @ [Edit p, Commit, ConvertResolved echo data,
                                 ConvertResolved echo' data']) s)) \<and>
         (convertPending s = [r] \<and> \<not> pendingUpdate s \<longrightarrow>
            convertPending (step P (ConvertResolved echo data) s) = [] \<and>
            convertLog (step P (ConvertResolved echo data) s) = convertLog s \<and>
            \<not> isUpdating (step P (ConvertResolved echo data) s))"
proof -
  have co: "coordinated s" unfolding assms by (rule coordinated_reachable)
  then have a: "length (convertPending s) \<le> 1" "isUpdating s = (convertPending s \<noteq> [])"
    by (simp_all add: coordinated_def)
  have b: "isUpdating s \<longrightarrow> convert True f s = s\<lparr>pendingUpdate := True\<rparr>"
    by (simp add: convert_def)
  have c: "convertPending s = [r] \<and> pendingUpdate s \<longrightarrow>
            convertPending (step P (ConvertResolved echo data) s) = [(paramsRef s, snd r)] \<and>
            convertLog (step P (ConvertResolved echo data) s) =
              convertLog s @ [(paramsRef s, snd r)] \<and>
            isUpdating (step P (ConvertResolved echo data) s) \<and>
            \<not> pendingUpdate (step P (ConvertResolved echo data) s)"
    using resolved_with_replay [of s r P echo data] a(2) by auto
  have d: "convertPending s = [r] \<and> list_all (\<lambda>e. \<not> is_response e) burst \<longrightarrow>
            convertPending (run P (burst @ [Edit p, Commit]) s) = [r] \<and>
            convertLog (run P (burst @ [Edit p, Commit]) s) = convertLog s \<and>
            convertPending (run P (burst @ [Edit p, Commit, ConvertResolved echo data]) s) =
              [(p, snd r)] \<and>
            convertLog (run P (burst @ [Edit p, Commit, ConvertResolved echo data]) s) =
              convertLog s @ [(p, snd r)] \<and>
            \<not> pendingUpdate
                (run P (burst @ [Edit p, Commit, ConvertResolved echo data]) s) \<and>
            convertPending
              (run P (burst @ [Edit p, Commit, ConvertResolved echo data,
                               ConvertResolved echo' data']) s) = [] \<and>
            convertLog
              (run P (burst @ [Edit p, Commit, ConvertResolved echo data,
                               ConvertResolved echo' data']) s) = convertLog s @ [(p, snd r)] \<and>
            \<not> isUpdating
                (run P (burst @ [Edit p, Commit, ConvertResolved echo data,
                                 ConvertResolved echo' data']) s)"
  proof
    assume h: "convertPending s = [r] \<and> list_all (\<lambda>e. \<not> is_response e) burst"
    let ?s1 = "run P burst s"
    have s1: "coordinated ?s1" "convertPending ?s1 = [r]" "convertLog ?s1 = convertLog s"
      using run_while_converting [OF co, of r burst P] h by simp_all
    let ?s2 = "run P [Edit p, Commit] ?s1"
    have s2: "convertPending ?s2 = [r]" "convertLog ?s2 = convertLog s" "pendingUpdate ?s2"
        "paramsRef ?s2 = p"
      using edit_then_commit_while_converting [OF s1(1,2), of P p] s1(3) by simp_all
    let ?s3 = "step P (ConvertResolved echo data) ?s2"
    have s3: "convertPending ?s3 = [(p, snd r)]" "convertLog ?s3 = convertLog s @ [(p, snd r)]"
        "\<not> pendingUpdate ?s3"
      using resolved_with_replay [OF s2(1,3), of P echo data] s2 by simp_all
    let ?s4 = "step P (ConvertResolved echo' data') ?s3"
    have s4: "convertPending ?s4 = []" "convertLog ?s4 = convertLog s @ [(p, snd r)]"
        "\<not> isUpdating ?s4"
      using resolved_without_replay [OF s3(1,3), of P echo' data'] s3(2) by simp_all
    have e1: "run P (burst @ [Edit p, Commit]) s = ?s2" by (simp only: run_append)
    have "run P (burst @ [Edit p, Commit, ConvertResolved echo data]) s =
            run P [Edit p, Commit, ConvertResolved echo data] ?s1"
      by (simp only: run_append)
    then have e2: "run P (burst @ [Edit p, Commit, ConvertResolved echo data]) s = ?s3"
      by simp
    have "run P (burst @ [Edit p, Commit, ConvertResolved echo data,
                          ConvertResolved echo' data']) s =
            run P [Edit p, Commit, ConvertResolved echo data, ConvertResolved echo' data'] ?s1"
      by (simp only: run_append)
    then have e3: "run P (burst @ [Edit p, Commit, ConvertResolved echo data,
                          ConvertResolved echo' data']) s = ?s4"
      by simp
    show "convertPending (run P (burst @ [Edit p, Commit]) s) = [r] \<and>
            convertLog (run P (burst @ [Edit p, Commit]) s) = convertLog s \<and>
            convertPending (run P (burst @ [Edit p, Commit, ConvertResolved echo data]) s) =
              [(p, snd r)] \<and>
            convertLog (run P (burst @ [Edit p, Commit, ConvertResolved echo data]) s) =
              convertLog s @ [(p, snd r)] \<and>
            \<not> pendingUpdate
                (run P (burst @ [Edit p, Commit, ConvertResolved echo data]) s) \<and>
            convertPending
              (run P (burst @ [Edit p, Commit, ConvertResolved echo data,
                               ConvertResolved echo' data']) s) = [] \<and>
            convertLog
              (run P (burst @ [Edit p, Commit, ConvertResolved echo data,
                               ConvertResolved echo' data']) s) = convertLog s @ [(p, snd r)] \<and>
            \<not> isUpdating
                (run P (burst @ [Edit p, Commit, ConvertResolved echo data,
                                 ConvertResolved echo' data']) s)"
      unfolding e1 e2 e3 using s2(1,2) s3 s4 by blast
  qed
  have e: "convertPending s = [r] \<and> \<not> pendingUpdate s \<longrightarrow>
            convertPending (step P (ConvertResolved echo data) s) = [] \<and>
            convertLog (step P (ConvertResolved echo data) s) = convertLog s \<and>
            \<not> isUpdating (step P (ConvertResolved echo data) s)"
    using resolved_without_replay [of s r P echo data] by blast
  from a b c d e show ?thesis by blast
qed

lemma loaded_state_2_reached:
  "loaded_state 2 = run sample_platform [OpenSelected, LoadResolved 2] (init sample_viewport)"
  by (simp add: loaded_state_def)

lemma loaded_state_2_facts:
  "convertPending (loaded_state 2) = [(sample_params 0, None)] \<and>
   convertLog (loaded_state 2) = [(sample_params 0, None)] \<and>
   isUpdating (loaded_state 2) \<and> \<not> pendingUpdate (loaded_state 2) \<and>
   list_all (\<lambda>e. \<not> is_response e)
     [Edit (sample_params 3), Commit, Tick 200, Edit (sample_params 7), Commit]"
  by code_simp

theorem C1_single_flight_coalescing_witness:
  "convertPending (loaded_state 2) = [(sample_params 0, None)] \<and>
   convert True (Some 0) (loaded_state 2) = (loaded_state 2)\<lparr>pendingUpdate := True\<rparr> \<and>
   convertLog
     (run sample_platform
        ([Edit (sample_params 3), Commit, Tick 200, Edit (sample_params 7), Commit] @
         [Edit (sample_params 10), Commit, ConvertResolved 2 (sample_bytes 20)])
        (loaded_state 2)) =
     [(sample_params 0, None), (sample_params 10, None)] \<and>
   \<not> pendingUpdate
     (run sample_platform
        ([Edit (sample_params 3), Commit, Tick 200, Edit (sample_params 7), Commit] @
         [Edit (sample_params 10), Commit, ConvertResolved 2 (sample_bytes 20)])
        (loaded_state 2)) \<and>
   convertLog
     (run sample_platform
        ([Edit (sample_params 3), Commit, Tick 200, Edit (sample_params 7), Commit] @
         [Edit (sample_params 10), Commit, ConvertResolved 2 (sample_bytes 20),
          ConvertResolved 2 (sample_bytes 20)])
        (loaded_state 2)) =
     [(sample_params 0, None), (sample_params 10, None)] \<and>
   convertPending
     (run sample_platform
        ([Edit (sample_params 3), Commit, Tick 200, Edit (sample_params 7), Commit] @
         [Edit (sample_params 10), Commit, ConvertResolved 2 (sample_bytes 20),
          ConvertResolved 2 (sample_bytes 20)])
        (loaded_state 2)) = [] \<and>
   convertPending
     (step sample_platform (ConvertResolved 2 (sample_bytes 20)) (loaded_state 2)) = [] \<and>
   \<not> isUpdating
     (step sample_platform (ConvertResolved 2 (sample_bytes 20)) (loaded_state 2))"
  using C1_single_flight_coalescing
          [OF loaded_state_2_reached,
           where f = "Some 0" and r = "(sample_params 0, None)" and echo = 2
             and data = "sample_bytes 20" and p = "sample_params 10"
             and echo' = 2 and data' = "sample_bytes 20"
             and burst = "[Edit (sample_params 3), Commit, Tick 200,
                           Edit (sample_params 7), Commit]"]
        loaded_state_2_facts
  by simp

subsection \<open>Edits and the debounce timer\<close>











text \<open>
  What the amended claim leaves open: when the timer fires while a single-frame
  conversion is pending, its bulk conversion is coalesced into \<open>pendingUpdate\<close>, and the
  replay repeats the pending call with its own \<open>onlyFrame\<close>. In the run below the log
  ends with two single-frame calls and nothing is pending or armed afterwards: no bulk
  conversion has been issued for the edited parameters.
\<close>

lemma debounce_while_converting_replays_single_frame:
  "convertLog
     (run sample_platform
        [Edit (sample_params 10), Commit, TimerFired 1,
         ConvertResolved 2 (sample_bytes 10), ConvertResolved 2 (sample_bytes 10)]
        playing_state) =
     [(sample_params 0, None), (sample_params 0, Some 0), (sample_params 10, Some 0)] \<and>
   convertPending
     (run sample_platform
        [Edit (sample_params 10), Commit, TimerFired 1,
         ConvertResolved 2 (sample_bytes 10), ConvertResolved 2 (sample_bytes 10)]
        playing_state) = [] \<and>
   timers
     (run sample_platform
        [Edit (sample_params 10), Commit, TimerFired 1,
         ConvertResolved 2 (sample_bytes 10), ConvertResolved 2 (sample_bytes 10)]
        playing_state) = []"
  by code_simp

end
